theory Spec2Isabelle
  imports Main
begin

section \<open>Python values\<close>

text \<open>
  A Python \<open>str\<close> is a sequence of Unicode code points; \<open>len\<close> counts code points.
  A code point is a natural number, a string a list of them.
\<close>

type_synonym pychar = nat
type_synonym pystr = "pychar list"

definition ascii :: "string \<Rightarrow> pystr" where
  "ascii s = map of_char s"

text \<open>\<open>xs[i]\<close> for a Python list: a negative index counts from the end, an index out of
  range raises IndexError (here \<open>None\<close>).\<close>

definition py_get :: "'a list \<Rightarrow> int \<Rightarrow> 'a option" where
  "py_get xs i =
     (if 0 \<le> i \<and> i < int (length xs) then Some (xs ! nat i)
      else if i < 0 \<and> - int (length xs) \<le> i then Some (xs ! nat (int (length xs) + i))
      else None)"

text \<open>\<open>xs[a:b]\<close>: a negative bound counts from the end, every bound is clipped to
  \<open>0..len(xs)\<close>, and the slice is empty when the bounds cross.\<close>

definition py_bound :: "nat \<Rightarrow> int \<Rightarrow> nat" where
  "py_bound n a = (if a < 0 then nat (max 0 (a + int n)) else min (nat a) n)"

definition py_slice :: "'a list \<Rightarrow> int \<Rightarrow> int \<Rightarrow> 'a list" where
  "py_slice xs a b =
     (let lo = py_bound (length xs) a; hi = py_bound (length xs) b
      in take (hi - lo) (drop lo xs))"


section \<open>utils.py: split\_text\<close>

text \<open>\<open>str.isspace\<close> of one code point: the whitespace table of the Python runtime.\<close>

definition py_isspace :: "pychar \<Rightarrow> bool" where
  "py_isspace c \<longleftrightarrow>
     (9 \<le> c \<and> c \<le> 13) \<or> (28 \<le> c \<and> c \<le> 32) \<or> c = 133 \<or> c = 160 \<or> c = 5760
     \<or> (8192 \<le> c \<and> c \<le> 8202) \<or> c = 8232 \<or> c = 8233 \<or> c = 8239 \<or> c = 8287
     \<or> c = 12288"

text \<open>\<open>s.strip()\<close>: leading and trailing whitespace removed.\<close>

definition py_strip :: "pystr \<Rightarrow> pystr" where
  "py_strip s = rev (dropWhile py_isspace (rev (dropWhile py_isspace s)))"

text \<open>The list \<open>['.', '!', '?', '\n']\<close>.\<close>

definition sentence_endings :: "pychar list" where
  "sentence_endings = [46, 33, 63, 10]"

text \<open>
  The inner \<open>for\<close> loop of \<open>split_text\<close>: \<open>best_break\<close> starts as \<open>end\<close>; the first
  \<open>i\<close> of \<open>range(max(0, end - 200), min(len(text), end + 100))\<close> with a sentence ending
  at \<open>text[i]\<close> and \<open>i > start + chunk_size // 2\<close> sets it to \<open>i + 1\<close> and leaves the
  loop. Every \<open>i\<close> of the range is a valid index of \<open>text\<close>.
\<close>

definition find_break :: "pystr \<Rightarrow> int \<Rightarrow> int \<Rightarrow> int \<Rightarrow> int" where
  "find_break text chunk_size start end =
     (case List.find
             (\<lambda>i. text ! nat i \<in> set sentence_endings \<and> i > start + chunk_size div 2)
             [max 0 (end - 200) .. min (int (length text)) (end + 100) - 1] of
        None \<Rightarrow> end
      | Some i \<Rightarrow> i + 1)"

text \<open>
  The \<open>while start < len(text)\<close> loop, from the state (\<open>chunks\<close>, \<open>start\<close>). It may run
  forever: \<open>None\<close> is a loop that does not return.
\<close>

partial_function (option) split_loop ::
  "pystr \<Rightarrow> int \<Rightarrow> int \<Rightarrow> pystr list \<Rightarrow> int \<Rightarrow> pystr list option" where
  "split_loop text chunk_size overlap chunks start =
     (if start < int (length text) then
        (let end0 = start + chunk_size;
             end = (if end0 < int (length text) then find_break text chunk_size start end0
                    else end0);
             chunk = py_strip (py_slice text start end);
             chunks' = (if chunk \<noteq> [] then chunks @ [chunk] else chunks);
             start' = end - overlap
         in if start' \<ge> int (length text) then Some chunks'
            else split_loop text chunk_size overlap chunks' start')
      else Some chunks)"

declare split_loop.simps [code]

definition split_text :: "pystr \<Rightarrow> int \<Rightarrow> int \<Rightarrow> pystr list option" where
  "split_text text chunk_size overlap =
     (if int (length text) \<le> chunk_size then Some [text]
      else split_loop text chunk_size overlap [] 0)"


section \<open>utils.py: clean\_text\<close>

text \<open>\<open>text.split()\<close>: the maximal runs of non-whitespace characters, in order; \<open>w\<close> is
  the word being read.\<close>

fun py_split :: "pystr \<Rightarrow> pystr \<Rightarrow> pystr list" where
  "py_split [] w = (if w = [] then [] else [w])"
| "py_split (c # cs) w =
     (if py_isspace c then (if w = [] then py_split cs [] else w # py_split cs [])
      else py_split cs (w @ [c]))"

text \<open>\<open>sep.join(words)\<close>.\<close>

fun py_join :: "pystr \<Rightarrow> pystr list \<Rightarrow> pystr" where
  "py_join sep [] = []"
| "py_join sep [w] = w"
| "py_join sep (w # ws) = w @ sep @ py_join sep ws"

text \<open>
  The class \<open>\w\<close> of a Unicode pattern: an alphanumeric character or the underscore. It is
  written out for ASCII; beyond ASCII it is the table of the Python runtime, the parameter
  \<open>uni\<close>.
\<close>

definition re_word :: "(pychar \<Rightarrow> bool) \<Rightarrow> pychar \<Rightarrow> bool" where
  "re_word uni c \<longleftrightarrow>
     (if c < 128 then (48 \<le> c \<and> c \<le> 57) \<or> (65 \<le> c \<and> c \<le> 90) \<or> (97 \<le> c \<and> c \<le> 122) \<or> c = 95
      else uni c)"

text \<open>
  The characters the pattern \<open>[^\w\s\.\,\!\?\;\:\-\(\)\[\]\"\'...]\<close> does not match, so that
  \<open>re.sub\<close> keeps them: a word character, whitespace (\<open>\s\<close> is \<open>str.isspace\<close> on a
  Unicode pattern), one of \<open>. , ! ? ; : - ( ) [ ] " '\<close>, or a guillemet (U+00AB, U+00BB).
\<close>

definition allowed :: "(pychar \<Rightarrow> bool) \<Rightarrow> pychar \<Rightarrow> bool" where
  "allowed uni c \<longleftrightarrow>
     re_word uni c \<or> py_isspace c
     \<or> c \<in> set [46, 44, 33, 63, 59, 58, 45, 40, 41, 91, 93, 34, 39, 171, 187]"

definition clean_text :: "(pychar \<Rightarrow> bool) \<Rightarrow> pystr \<Rightarrow> pystr" where
  "clean_text uni text = filter (allowed uni) (py_join [32] (py_split text []))"


section \<open>utils.py: load\_law\_texts\<close>

text \<open>
  The list \<open>['utf-8', 'cp1251', 'windows-1251', 'latin-1']\<close>, and what
  \<open>open(file_path, 'r', encoding=encoding)\<close> followed by \<open>f.read()\<close> does for one file
  and one encoding: it returns the decoded content, raises UnicodeDecodeError, or raises
  something else (the file cannot be opened or read).
\<close>

datatype encoding = Utf8 | Cp1251 | Windows1251 | Latin1

definition encodings :: "encoding list" where
  "encodings = [Utf8, Cp1251, Windows1251, Latin1]"

datatype read_result = Content pystr | DecodeError | OtherError

text \<open>A directory entry is a name with the behaviour of reading it under each encoding.\<close>

type_synonym pyfile = "encoding \<Rightarrow> read_result"
type_synonym directory = "(pystr \<times> pyfile) list"

text \<open>
  The inner \<open>for encoding in encodings\<close> loop: \<open>Some (Some content)\<close> after the first
  encoding that decodes, \<open>Some None\<close> when every encoding raises UnicodeDecodeError
  (\<open>content\<close> is still \<open>None\<close>), and \<open>None\<close> when another exception leaves the loop for
  the outer \<open>except Exception\<close>.
\<close>

fun try_encodings :: "pyfile \<Rightarrow> encoding list \<Rightarrow> pystr option option" where
  "try_encodings f [] = Some None"
| "try_encodings f (e # es) =
     (case f e of
        Content s \<Rightarrow> Some (Some s)
      | DecodeError \<Rightarrow> try_encodings f es
      | OtherError \<Rightarrow> None)"

text \<open>The body of \<open>for file_path in files\<close>: the pairs one entry adds to \<open>law_texts\<close>.
  \<open>if content:\<close> is false for \<open>None\<close> and for the empty string.\<close>

definition load_file :: "pystr \<times> pyfile \<Rightarrow> (pystr \<times> pystr) list" where
  "load_file entry =
     (case try_encodings (snd entry) encodings of
        None \<Rightarrow> []
      | Some None \<Rightarrow> []
      | Some (Some content) \<Rightarrow> (if content \<noteq> [] then [(fst entry, content)] else []))"

text \<open>
  \<open>glob.glob(os.path.join(abs_data_dir, '*.' + ext))\<close>: the entries, in directory order,
  whose name ends in \<open>.ext\<close> and does not begin with a dot (\<open>*\<close> does not match a hidden
  name).
\<close>

definition glob_match :: "pystr \<Rightarrow> pystr \<Rightarrow> bool" where
  "glob_match ext name \<longleftrightarrow>
     name \<noteq> [] \<and> hd name \<noteq> 46 \<and> length ext < length name
     \<and> drop (length name - Suc (length ext)) name = 46 # ext"

definition extensions :: "pystr list" where
  "extensions = [ascii ''txt'', ascii ''md'', ascii ''rtf'']"

text \<open>
  The pattern handed to \<open>glob.glob\<close> is \<open>os.path.join(abs_data_dir, '*.ext')\<close>, with the
  directory path unescaped. \<open>glob\<close> takes the directory part literally only when it has
  none of the characters \<open>*\<close>, \<open>?\<close>, \<open>[\<close>; otherwise it expands it as a pattern and
  looks into every directory the pattern matches.
\<close>

definition has_magic :: "pystr \<Rightarrow> bool" where
  "has_magic path \<longleftrightarrow> list_ex (\<lambda>c. c \<in> set [42, 63, 91]) path"

text \<open>
  \<open>load_law_texts\<close>, for the absolute path \<open>abs_data_dir\<close> and the listing \<open>data_dir\<close> of
  the directory of that name: \<open>None\<close> when the path does not exist; it is then created,
  empty, and the result is the empty list. \<open>matched\<close> belongs to the file system: for a
  path with pattern characters it gives the listings of the directories the path matches
  as a pattern (given the listing of the directory of that literal name). The listing
  after the call is returned with the list.
\<close>

definition load_law_texts ::
  "(pystr \<Rightarrow> directory \<Rightarrow> directory list) \<Rightarrow> pystr \<Rightarrow> directory option
     \<Rightarrow> (pystr \<times> pystr) list \<times> directory option" where
  "load_law_texts matched abs_data_dir data_dir =
     (case data_dir of
        None \<Rightarrow> ([], Some [])
      | Some entries \<Rightarrow>
         (concat (map (\<lambda>ext.
                    concat (map (\<lambda>dir. concat (map load_file
                                                 (filter (\<lambda>e. glob_match ext (fst e)) dir)))
                                (if has_magic abs_data_dir then matched abs_data_dir entries
                                 else [entries])))
                      extensions),
          Some entries))"


section \<open>rag.py: the pipeline state and search\_law\<close>

text \<open>
  The metadata dictionary built for each chunk in \<open>build_index\<close> (keys \<open>source\<close>,
  \<open>chunk_id\<close>, \<open>total_chunks\<close>, \<open>char_count\<close>).
\<close>

record chunk_meta =
  source :: pystr
  chunk_id :: nat
  total_chunks :: nat
  char_count :: nat

text \<open>
  The sentence-transformer model is outside the repository. Its \<open>encode\<close> takes a list of
  texts and returns one row per call, or raises (\<open>None\<close>). Vectors are kept abstract
  (\<open>'v\<close>).
\<close>

datatype 'v encoder_model = Encoder (encode: "pystr list \<Rightarrow> 'v list option")

text \<open>
  What the code uses of faiss: \<open>normalize_L2\<close> on a row, and the inner product of two
  rows, here an integer score. \<open>lowest\<close> is the score faiss reports for a result slot it
  could not fill.
\<close>

record 'v faiss =
  normalize_L2 :: "'v \<Rightarrow> 'v"
  inner :: "'v \<Rightarrow> 'v \<Rightarrow> int"
  lowest :: int

text \<open>
  The loop \<open>for filename, content in law_texts\<close> of \<open>build_index\<close> with its inner loop
  over \<open>enumerate(document_chunks)\<close>, from the lists built so far. \<open>None\<close>: a call of
  \<open>split_text\<close> does not return.
\<close>

fun process_documents ::
  "(pychar \<Rightarrow> bool) \<Rightarrow> (pystr \<times> pystr) list \<Rightarrow> int \<Rightarrow> int \<Rightarrow> pystr list \<Rightarrow> chunk_meta list
     \<Rightarrow> (pystr list \<times> chunk_meta list) option"
where
  "process_documents uni [] chunk_size overlap chunks chunk_metadata =
     Some (chunks, chunk_metadata)"
| "process_documents uni ((filename, content) # rest) chunk_size overlap chunks chunk_metadata =
     (case split_text (clean_text uni content) chunk_size overlap of
        None \<Rightarrow> None
      | Some document_chunks \<Rightarrow>
         process_documents uni rest chunk_size overlap
           (chunks @ document_chunks)
           (chunk_metadata @
              map (\<lambda>(i, chunk). \<lparr>source = filename, chunk_id = i,
                                  total_chunks = length document_chunks,
                                  char_count = length chunk\<rparr>)
                  (zip [0..<length document_chunks] document_chunks)))"

text \<open>The attributes of a \<open>RAGPipeline\<close> object; \<open>index\<close> is the list of the vectors
  added to the flat index, in order.\<close>

record 'v pipeline =
  encoder :: "'v encoder_model option"
  index :: "'v list option"
  chunks :: "pystr list"
  chunk_metadata :: "chunk_meta list"

text \<open>The pipeline after \<open>__init__\<close>.\<close>

definition init_pipeline :: "'v pipeline" where
  "init_pipeline = \<lparr>encoder = None, index = None, chunks = [], chunk_metadata = []\<rparr>"

text \<open>
  \<open>IndexFlatIP.search(x, k)\<close> for one query row: exactly \<open>k\<close> (label, score) pairs, the
  stored positions by descending inner product; when the index holds fewer than \<open>k\<close>
  vectors the remaining slots carry the label \<open>-1\<close>. The Python wrapper asserts
  \<open>k > 0\<close>, so a call with \<open>k \<le> 0\<close> raises.
\<close>

definition flat_search_row :: "'v faiss \<Rightarrow> 'v list \<Rightarrow> 'v \<Rightarrow> nat \<Rightarrow> (int \<times> int) list" where
  "flat_search_row fa vs q k =
     (let ranked = sort_key (\<lambda>i. - inner fa q (vs ! i)) [0..<length vs];
          found = map (\<lambda>i. (int i, inner fa q (vs ! i))) (take k ranked)
      in found @ replicate (k - length found) (-1, lowest fa))"

definition index_search ::
  "'v faiss \<Rightarrow> 'v list \<Rightarrow> 'v list \<Rightarrow> int \<Rightarrow> (int \<times> int) list list option" where
  "index_search fa vs qs k =
     (if k \<le> 0 then None else Some (map (\<lambda>q. flat_search_row fa vs q (nat k)) qs))"

record search_result =
  chunk :: pystr
  metadata :: chunk_meta
  score :: int
  rank :: nat

text \<open>
  The loop of \<open>search_law\<close> over \<open>indices[0]\<close> and \<open>scores[0]\<close>; \<open>i\<close> is the loop
  counter. \<open>None\<close> is an IndexError of \<open>self.chunks[idx]\<close> or
  \<open>self.chunk_metadata[idx]\<close>.
\<close>

fun collect_results ::
  "'v pipeline \<Rightarrow> (int \<times> int) list \<Rightarrow> nat \<Rightarrow> search_result list \<Rightarrow> search_result list option"
where
  "collect_results self [] i results = Some results"
| "collect_results self ((idx, sc) # rest) i results =
     (if idx < int (length (chunks self)) then
        (case py_get (chunks self) idx of
           None \<Rightarrow> None
         | Some c \<Rightarrow>
            (case py_get (chunk_metadata self) idx of
               None \<Rightarrow> None
             | Some m \<Rightarrow>
                collect_results self rest (i + 1)
                  (results @ [\<lparr>chunk = c, metadata = m, score = sc, rank = i + 1\<rparr>])))
      else collect_results self rest (i + 1) results)"

text \<open>
  \<open>RAGPipeline.search_law\<close>. The method returns the result list; the pipeline object after
  the call is returned with it. Every exception inside the \<open>try\<close> block ends in
  \<open>return []\<close>.
\<close>

definition search_law ::
  "'v faiss \<Rightarrow> 'v pipeline \<Rightarrow> pystr \<Rightarrow> int \<Rightarrow> search_result list \<times> 'v pipeline" where
  "search_law fa self query k =
     (case index self of
        None \<Rightarrow> ([], self)
      | Some vs \<Rightarrow>
         (case encoder self of
            None \<Rightarrow> ([], self)
          | Some enc \<Rightarrow>
             (case encode enc [query] of
                None \<Rightarrow> ([], self)
              | Some query_embedding \<Rightarrow>
                 (case index_search fa vs (map (normalize_L2 fa) query_embedding) k of
                    None \<Rightarrow> ([], self)
                  | Some rows \<Rightarrow>
                     (case rows of
                        [] \<Rightarrow> ([], self)
                      | row0 # _ \<Rightarrow>
                         (case collect_results self row0 0 [] of
                            None \<Rightarrow> ([], self)
                          | Some results \<Rightarrow> (results, self)))))))"


section \<open>rag.py: build\_index\<close>

text \<open>
  What lies outside the repository at the time of one call: whether the two packages were
  imported (\<open>SENTENCE_TRANSFORMERS_AVAILABLE\<close>, \<open>FAISS_AVAILABLE\<close>), what
  \<open>SentenceTransformer(name)\<close> gives for the configured and for the fallback model
  (\<open>None\<close>: it raises), the Unicode table of \<open>\w\<close>, what \<open>glob\<close> matches for a
  directory path with pattern characters, faiss, whether creating and filling
  the flat index raises (before or after \<open>self.index\<close> is assigned), the text of
  \<open>get_sample_legal_text()\<close>, and how \<open>os.makedirs("data")\<close>, \<open>faiss.write_index\<close> and
  the write of the pickle end. Creating \<open>data_dir\<close> and writing the sample document are
  taken to succeed.
\<close>

datatype build_outcome = BuildOk | FailsBeforeAssign | FailsAfterAssign

datatype write_outcome = WriteOk | WriteFailsUntouched | WriteFailsGarbage

record 'v env =
  st_available :: bool
  faiss_available :: bool
  primary_model :: "'v encoder_model option"
  fallback_model :: "'v encoder_model option"
  unicode_alnum :: "pychar \<Rightarrow> bool"
  glob_matched :: "pystr \<Rightarrow> directory \<Rightarrow> directory list"
  faiss_lib :: "'v faiss"
  index_build :: "'v list \<Rightarrow> build_outcome"
  sample_text :: pystr
  makedirs_ok :: bool
  write_index_outcome :: write_outcome
  dump_outcome :: write_outcome

text \<open>
  The files the pipeline reads and writes: the directory \<open>data_dir\<close>, \<open>data/faiss.index\<close>
  and \<open>data/laws_chunks.pkl\<close>. A file is absent, unreadable for its loader, or holds a
  value; the pickled dictionary has the keys \<open>chunks\<close> and \<open>metadata\<close>, or lacks one.
\<close>

datatype 'a stored = Absent | Garbage | Stored 'a

record pickle =
  p_chunks :: "pystr list option"
  p_metadata :: "chunk_meta list option"

record 'v disk =
  laws_raw :: "directory option"
  faiss_index_file :: "'v list stored"
  laws_chunks_file :: "pickle stored"

text \<open>\<open>RAGPipeline._load_encoder\<close>.\<close>

definition load_encoder :: "'v env \<Rightarrow> 'v pipeline \<Rightarrow> bool \<times> 'v pipeline" where
  "load_encoder env self =
     (if \<not> st_available env then (False, self)
      else if encoder self = None then
        (case primary_model env of
           Some m \<Rightarrow> (True, self\<lparr>encoder := Some m\<rparr>)
         | None \<Rightarrow>
            (case fallback_model env of
               Some m \<Rightarrow> (True, self\<lparr>encoder := Some m\<rparr>)
             | None \<Rightarrow> (False, self)))
      else (True, self))"

text \<open>
  \<open>RAGPipeline._load_existing_index\<close>. Every exception inside the \<open>try\<close> block ends in
  \<open>return False\<close>, with the assignments made before it in place. \<open>faiss.read_index\<close>
  raises when faiss was not imported.
\<close>

definition load_existing_index :: "'v env \<Rightarrow> 'v pipeline \<Rightarrow> 'v disk \<Rightarrow> bool \<times> 'v pipeline" where
  "load_existing_index env self disk =
     (case load_encoder env self of
        (False, self1) \<Rightarrow> (False, self1)
      | (True, self1) \<Rightarrow>
         (if \<not> faiss_available env then (False, self1)
          else case faiss_index_file disk of
             Absent \<Rightarrow> (False, self1)
           | Garbage \<Rightarrow> (False, self1)
           | Stored vs \<Rightarrow>
              (case laws_chunks_file disk of
                 Absent \<Rightarrow> (False, self1\<lparr>index := Some vs\<rparr>)
               | Garbage \<Rightarrow> (False, self1\<lparr>index := Some vs\<rparr>)
               | Stored data \<Rightarrow>
                  (case p_chunks data of
                     None \<Rightarrow> (False, self1\<lparr>index := Some vs\<rparr>)
                   | Some cks \<Rightarrow>
                      (case p_metadata data of
                         None \<Rightarrow> (False, self1\<lparr>index := Some vs, chunks := cks\<rparr>)
                       | Some ms \<Rightarrow>
                          (True, self1\<lparr>index := Some vs, chunks := cks,
                                       chunk_metadata := ms\<rparr>))))))"

text \<open>
  The sample document written when no document was loaded: \<open>sample_civil_code.txt\<close> in
  \<open>data_dir\<close>, replacing an entry of that name. It is written as UTF-8, the first
  encoding \<open>load_law_texts\<close> tries, so the other encodings are never asked.
\<close>

definition write_sample :: "pystr \<Rightarrow> directory option \<Rightarrow> directory option" where
  "write_sample sample data_dir =
     Some (filter (\<lambda>e. fst e \<noteq> ascii ''sample_civil_code.txt'')
                  (case data_dir of None \<Rightarrow> [] | Some entries \<Rightarrow> entries)
           @ [(ascii ''sample_civil_code.txt'', \<lambda>e. Content sample)])"

text \<open>
  The last \<open>try\<close> block of \<open>build_index\<close> ("Save index and chunks"), with the vectors
  \<open>vs\<close> of \<open>self.index\<close>: the index file is written before the pickle.
\<close>

definition persist :: "'v env \<Rightarrow> 'v list \<Rightarrow> 'v pipeline \<Rightarrow> 'v disk \<Rightarrow> bool \<times> 'v pipeline \<times> 'v disk" where
  "persist env vs self disk =
     (if \<not> makedirs_ok env then (False, self, disk)
      else case write_index_outcome env of
         WriteFailsUntouched \<Rightarrow> (False, self, disk)
       | WriteFailsGarbage \<Rightarrow> (False, self, disk\<lparr>faiss_index_file := Garbage\<rparr>)
       | WriteOk \<Rightarrow>
          (case dump_outcome env of
             WriteFailsUntouched \<Rightarrow> (False, self, disk\<lparr>faiss_index_file := Stored vs\<rparr>)
           | WriteFailsGarbage \<Rightarrow>
              (False, self, disk\<lparr>faiss_index_file := Stored vs, laws_chunks_file := Garbage\<rparr>)
           | WriteOk \<Rightarrow>
              (True, self,
               disk\<lparr>faiss_index_file := Stored vs,
                    laws_chunks_file :=
                      Stored \<lparr>p_chunks = Some (chunks self),
                              p_metadata = Some (chunk_metadata self)\<rparr>\<rparr>)))"

text \<open>
  \<open>build_index\<close> from "Generate embeddings" on: the two \<open>try\<close> blocks that encode the
  chunks and build the flat index, then \<open>persist\<close>. \<open>self.chunks\<close> and
  \<open>self.chunk_metadata\<close> already hold the new lists.
\<close>

definition embed_and_store :: "'v env \<Rightarrow> 'v pipeline \<Rightarrow> 'v disk \<Rightarrow> bool \<times> 'v pipeline \<times> 'v disk" where
  "embed_and_store env self disk =
     (case encoder self of
        None \<Rightarrow> (False, self, disk)
      | Some enc \<Rightarrow>
         (case encode enc (chunks self) of
            None \<Rightarrow> (False, self, disk)
          | Some embeddings \<Rightarrow>
             (case index_build env embeddings of
                FailsBeforeAssign \<Rightarrow> (False, self, disk)
              | FailsAfterAssign \<Rightarrow> (False, self\<lparr>index := Some []\<rparr>, disk)
              | BuildOk \<Rightarrow>
                 persist env (map (normalize_L2 (faiss_lib env)) embeddings)
                   (self\<lparr>index := Some (map (normalize_L2 (faiss_lib env)) embeddings)\<rparr>)
                   disk)))"

text \<open>
  \<open>build_index\<close> from "Load and process documents" on, once the encoder is loaded.
  \<open>data_dir\<close> is the absolute path of the document directory, whose listing is
  \<open>laws_raw disk\<close>. \<open>None\<close>: the call does not return, because a \<open>split_text\<close> does
  not.
\<close>

definition rebuild ::
  "'v env \<Rightarrow> 'v pipeline \<Rightarrow> 'v disk \<Rightarrow> pystr \<Rightarrow> int \<Rightarrow> int
     \<Rightarrow> (bool \<times> 'v pipeline \<times> 'v disk) option" where
  "rebuild env self disk data_dir chunk_size overlap =
     (let first_load = load_law_texts (glob_matched env) data_dir (laws_raw disk);
          second_load = (if fst first_load = []
                         then load_law_texts (glob_matched env) data_dir
                                (write_sample (sample_text env) (snd first_load))
                         else first_load)
      in case process_documents (unicode_alnum env) (fst second_load) chunk_size overlap [] [] of
           None \<Rightarrow> None
         | Some (cks, ms) \<Rightarrow>
            Some (embed_and_store env (self\<lparr>chunks := cks, chunk_metadata := ms\<rparr>)
                    (disk\<lparr>laws_raw := snd second_load\<rparr>)))"

text \<open>\<open>RAGPipeline.build_index\<close>: the result, the pipeline and the files after the call.\<close>

definition build_index ::
  "'v env \<Rightarrow> 'v pipeline \<Rightarrow> 'v disk \<Rightarrow> pystr \<Rightarrow> int \<Rightarrow> int \<Rightarrow> bool
     \<Rightarrow> (bool \<times> 'v pipeline \<times> 'v disk) option" where
  "build_index env self disk data_dir chunk_size overlap force_rebuild =
     (if \<not> st_available env \<or> \<not> faiss_available env then Some (False, self, disk)
      else if \<not> force_rebuild \<and> faiss_index_file disk \<noteq> Absent \<and> laws_chunks_file disk \<noteq> Absent
      then (case load_existing_index env self disk of (ok, self1) \<Rightarrow> Some (ok, self1, disk))
      else (case load_encoder env self of
              (False, self1) \<Rightarrow> Some (False, self1, disk)
            | (True, self1) \<Rightarrow> rebuild env self1 disk data_dir chunk_size overlap))"


subsection \<open>A pipeline of one chunk\<close>

text \<open>
  An encoder that maps a text to the one-dimensional vector of its length, and faiss on
  one-dimensional vectors with integer entries: \<open>normalize_L2\<close> divides an entry by its
  absolute value (and leaves 0), the inner product is the product, and the score of a
  result slot that could not be filled is \<open>-FLT_MAX\<close>, the lowest \<open>float32\<close>.
\<close>

definition flt_max :: int where
  "flt_max = 340282346638528859811704183484516925440"

definition toy_encoder :: "int encoder_model" where
  "toy_encoder = Encoder (\<lambda>texts. Some (map (\<lambda>t. int (length t)) texts))"

definition toy_faiss :: "int faiss" where
  "toy_faiss = \<lparr>normalize_L2 = sgn, inner = (\<lambda>a b. a * b), lowest = - flt_max\<rparr>"

definition one_chunk_pipeline :: "int pipeline" where
  "one_chunk_pipeline =
     \<lparr>encoder = Some toy_encoder, index = Some [1], chunks = [ascii ''pravo''],
      chunk_metadata = [\<lparr>source = ascii ''a.txt'', chunk_id = 0, total_chunks = 1, char_count = 5\<rparr>]\<rparr>"


section \<open>Notions used to state the chunker's properties\<close>

text \<open>
  The lengths of the delimiter-free runs of a text: the maximal stretches without a
  sentence-ending character. \<open>n\<close> is the length of the run being read.
\<close>

fun run_lengths :: "pystr \<Rightarrow> nat \<Rightarrow> nat list" where
  "run_lengths [] n = [n]"
| "run_lengths (c # cs) n =
     (if c \<in> set sentence_endings then n # run_lengths cs 0 else run_lengths cs (Suc n))"

definition longest_run :: "pystr \<Rightarrow> nat" where
  "longest_run t = fold max (run_lengths t 0) 0"

text \<open>
  Concatenating chunks after removing from every chunk but the first its leading
  \<open>overlap\<close> characters, the span it shares with the chunk before it.
\<close>

definition join_chunks :: "nat \<Rightarrow> pystr list \<Rightarrow> pystr" where
  "join_chunks overlap cks = (case cks of [] \<Rightarrow> [] | c # rest \<Rightarrow> c @ concat (map (drop overlap) rest))"

text \<open>
  The loop of \<open>split_text\<close> takes one slice \<open>text[start:end]\<close> per iteration. For a list
  of such (\<open>start\<close>, \<open>end\<close>) pairs: \<open>trimmed\<close> is the chunks the loop appends for them
  (each slice stripped, the empty ones dropped); \<open>linked\<close> says that the first starts at
  \<open>s\<close> and each next one \<open>overlap\<close> before the end of the one before;
  \<open>drop_overlaps\<close> is the untrimmed slices, each without its leading part that lies
  before \<open>prev\<close>, the end of the slice before it.
\<close>

definition trimmed :: "pystr \<Rightarrow> (int \<times> int) list \<Rightarrow> pystr list" where
  "trimmed t spans = filter (\<lambda>c. c \<noteq> []) (map (\<lambda>(s, e). py_strip (py_slice t s e)) spans)"

fun linked :: "int \<Rightarrow> int \<Rightarrow> (int \<times> int) list \<Rightarrow> bool" where
  "linked ov s [] = True"
| "linked ov s ((a, b) # rest) = (a = s \<and> linked ov (b - ov) rest)"

fun drop_overlaps :: "pystr \<Rightarrow> int \<Rightarrow> (int \<times> int) list \<Rightarrow> pystr list" where
  "drop_overlaps t prev [] = []"
| "drop_overlaps t prev ((s, e) # rest) =
     drop (nat (min prev (int (length t)) - s)) (py_slice t s e) # drop_overlaps t e rest"

text \<open>Whether a text has two whitespace characters in a row.\<close>

fun has_space_run :: "pystr \<Rightarrow> bool" where
  "has_space_run (a # b # rest) = ((py_isspace a \<and> py_isspace b) \<or> has_space_run (b # rest))"
| "has_space_run _ = False"

text \<open>A name has a supported extension when one of the three patterns matches it.\<close>

definition supported :: "pystr \<Rightarrow> bool" where
  "supported name \<longleftrightarrow> list_ex (\<lambda>ext. glob_match ext name) extensions"

text \<open>An empty file: every encoding decodes it, to the empty string. A file of five
  ASCII letters.\<close>

definition empty_file :: pyfile where
  "empty_file = (\<lambda>e. Content [])"

definition pravo_file :: pyfile where
  "pravo_file = (\<lambda>e. Content (ascii ''pravo''))"

subsection \<open>Inputs of split\_text used below\<close>

definition loop_text :: pystr where
  "loop_text = ascii ''aaaaaa.aaaaaaaaaaaaa''"

definition bound_text :: pystr where
  "bound_text = ascii ''aaaaa.aaaa.aaaaaa''"

definition cover_text :: pystr where
  "cover_text = ascii ''aaaaaaaaa bbbbbbbbb''"


section \<open>Worlds and files to run build\_index on\<close>

text \<open>A world in which everything is installed and nothing fails, and a directory
  \<open>/srv/data/laws_raw\<close> with one document, \<open>a.txt\<close>, of five letters; no index has been
  persisted yet.\<close>

definition laws_dir :: pystr where
  "laws_dir = ascii ''/srv/data/laws_raw''"

definition toy_env :: "int env" where
  "toy_env = \<lparr>st_available = True, faiss_available = True,
      primary_model = Some toy_encoder, fallback_model = None,
      unicode_alnum = (\<lambda>c. False), glob_matched = (\<lambda>path entries. []),
      faiss_lib = toy_faiss,
      index_build = (\<lambda>rows. BuildOk), sample_text = ascii ''Statya 1.'',
      makedirs_ok = True, write_index_outcome = WriteOk, dump_outcome = WriteOk\<rparr>"

definition toy_disk :: "int disk" where
  "toy_disk = \<lparr>laws_raw = Some [(ascii ''a.txt'', pravo_file)],
      faiss_index_file = Absent, laws_chunks_file = Absent\<rparr>"

text \<open>The files after a build from \<open>toy_disk\<close>.\<close>

definition built_disk :: "int disk" where
  "built_disk = toy_disk\<lparr>faiss_index_file := Stored [1],
      laws_chunks_file := Stored \<lparr>p_chunks = Some (chunks one_chunk_pipeline),
                                  p_metadata = Some (chunk_metadata one_chunk_pipeline)\<rparr>\<rparr>"

text \<open>
  A second document, \<open>c.txt\<close>, of six letters, joins the first; in the world
  \<open>dump_fails_env\<close> the write of the pickle raises and leaves the old pickle in place.
  \<open>skewed_disk\<close> is the files with an index file of two vectors beside the pickle of one
  chunk.
\<close>

definition kodeks_file :: pyfile where
  "kodeks_file = (\<lambda>e. Content (ascii ''kodeks''))"

definition two_docs_disk :: "int disk" where
  "two_docs_disk =
     built_disk\<lparr>laws_raw := Some [(ascii ''a.txt'', pravo_file), (ascii ''c.txt'', kodeks_file)]\<rparr>"

definition dump_fails_env :: "int env" where
  "dump_fails_env = toy_env\<lparr>dump_outcome := WriteFailsUntouched\<rparr>"

definition skewed_disk :: "int disk" where
  "skewed_disk = two_docs_disk\<lparr>faiss_index_file := Stored [1, 1]\<rparr>"







section \<open>Notions used to state the pipeline's properties\<close>

text \<open>
  Positional alignment of the three lists of a pipeline: as many vectors as chunks as
  metadata records, the vectors are the normalized rows of the encoding of the chunks, in
  order, and each metadata record carries the length of the chunk at its position. What
  else a record says of its chunk (source document, ordinal, number of chunks of the
  document) is stated against the documents, by \<open>describes_document\<close> below.
\<close>

definition aligned :: "'v faiss \<Rightarrow> 'v pipeline \<Rightarrow> bool" where
  "aligned fa self \<longleftrightarrow>
     (case encoder self of
        None \<Rightarrow> False
      | Some enc \<Rightarrow>
         (case index self of
            None \<Rightarrow> False
          | Some vs \<Rightarrow>
             length vs = length (chunks self)
             \<and> length (chunk_metadata self) = length (chunks self)
             \<and> map_option (map (normalize_L2 fa)) (encode enc (chunks self)) = Some vs
             \<and> list_all2 (\<lambda>c m. char_count m = length c) (chunks self) (chunk_metadata self)))"

text \<open>
  The metadata records \<open>ms\<close> describe the chunks \<open>dc\<close> of the document \<open>filename\<close>, position
  by position: the \<open>i\<close>-th record names the document, the ordinal \<open>i\<close>, the number of
  chunks of the document and the length of the \<open>i\<close>-th chunk.
\<close>

definition describes_document :: "pystr \<Rightarrow> pystr list \<Rightarrow> chunk_meta list \<Rightarrow> bool" where
  "describes_document filename dc ms \<longleftrightarrow>
     length ms = length dc
     \<and> list_all (\<lambda>i. source (ms ! i) = filename \<and> chunk_id (ms ! i) = i
                      \<and> total_chunks (ms ! i) = length dc
                      \<and> char_count (ms ! i) = length (dc ! i))
                 [0..<length dc]"

text \<open>
  \<open>parts\<close> gives, for each loaded document in order, its chunks (what \<open>split_text\<close>
  returns for the cleaned content) and metadata records that describe them.
\<close>

definition chunked_corpus ::
  "(pychar \<Rightarrow> bool) \<Rightarrow> int \<Rightarrow> int \<Rightarrow> (pystr \<times> pystr) list
     \<Rightarrow> (pystr list \<times> chunk_meta list) list \<Rightarrow> bool" where
  "chunked_corpus uni chunk_size overlap law_texts parts \<longleftrightarrow>
     list_all2 (\<lambda>doc part.
                  split_text (clean_text uni (snd doc)) chunk_size overlap = Some (fst part)
                  \<and> describes_document (fst doc) (fst part) (snd part))
               law_texts parts"

text \<open>The pipeline holds what the two persisted files hold.\<close>

definition persisted :: "'v disk \<Rightarrow> 'v pipeline \<Rightarrow> bool" where
  "persisted disk self \<longleftrightarrow>
     (case index self of None \<Rightarrow> False | Some vs \<Rightarrow> faiss_index_file disk = Stored vs)
     \<and> laws_chunks_file disk
         = Stored \<lparr>p_chunks = Some (chunks self), p_metadata = Some (chunk_metadata self)\<rparr>"

text \<open>The encoder's contract at the chunks of a pipeline: where \<open>encode\<close> returns, it
  returns one row per text.\<close>

definition rows_match :: "'v pipeline \<Rightarrow> bool" where
  "rows_match self \<longleftrightarrow>
     (case encoder self of
        None \<Rightarrow> True
      | Some enc \<Rightarrow>
         (case encode enc (chunks self) of
            None \<Rightarrow> True
          | Some rows \<Rightarrow> length rows = length (chunks self)))"

text \<open>\<open>build_index\<close> does not take the load path: \<open>force_rebuild\<close> is set or one of
  the two files is absent.\<close>

definition rebuilds :: "'v disk \<Rightarrow> bool \<Rightarrow> bool" where
  "rebuilds disk force_rebuild \<longleftrightarrow>
     force_rebuild \<or> faiss_index_file disk = Absent \<or> laws_chunks_file disk = Absent"

text \<open>
  The failures of a build, read off the world and the pipeline that holds the new chunks:
  \<open>encode\<close> raises on the chunks; the rows cannot be made into an index; one of the
  three persistence steps fails.
\<close>

definition encode_fails :: "'v pipeline \<Rightarrow> bool" where
  "encode_fails self \<longleftrightarrow>
     (case encoder self of None \<Rightarrow> False | Some enc \<Rightarrow> encode enc (chunks self) = None)"

definition index_fails :: "'v env \<Rightarrow> 'v pipeline \<Rightarrow> bool" where
  "index_fails env self \<longleftrightarrow>
     (case encoder self of
        None \<Rightarrow> False
      | Some enc \<Rightarrow>
         (case encode enc (chunks self) of
            None \<Rightarrow> False
          | Some rows \<Rightarrow> index_build env rows \<noteq> BuildOk))"

definition persist_fails :: "'v env \<Rightarrow> bool" where
  "persist_fails env \<longleftrightarrow>
     \<not> makedirs_ok env \<or> write_index_outcome env \<noteq> WriteOk \<or> dump_outcome env \<noteq> WriteOk"


section \<open>Search\<close>

text \<open>
  C7. On a pipeline whose index or encoder is still \<open>None\<close>, \<open>search_law\<close> returns the
  empty list for every query and every \<open>k\<close>; the model has no exception left on this
  path.
\<close>

theorem search_before_build:
  "index self = None \<or> encoder self = None \<Longrightarrow> fst (search_law fa self query k) = []"
  by (auto simp: search_law_def split: option.splits)

theorem search_before_build_witness:
  "(index (init_pipeline :: int pipeline) = None \<or> encoder (init_pipeline :: int pipeline) = None)
   \<and> fst (search_law \<lparr>normalize_L2 = id, inner = (*), lowest = -1\<rparr>
            (init_pipeline :: int pipeline) (ascii ''pravo'') 3) = []"
  using search_before_build [of "init_pipeline :: int pipeline"
      "\<lparr>normalize_L2 = id, inner = (*), lowest = -1\<rparr>" "ascii ''pravo''" 3]
  by (simp add: init_pipeline_def)

text \<open>
  C10. \<open>search_law\<close> leaves the pipeline as it was: chunks, chunk metadata and index are
  the same after the call, whether it returns results or the empty list of an error path.
\<close>

theorem search_read_only:
  "snd (search_law fa self query k) = self"
  by (simp add: search_law_def split: option.splits list.splits)

lemma py_get_in_range:
  "- int (length xs) \<le> i \<Longrightarrow> i < int (length xs) \<Longrightarrow> \<exists>x. py_get xs i = Some x"
  by (simp add: py_get_def)

lemma collect_results_length:
  assumes "length (chunk_metadata self) = length (chunks self)"
    and "\<forall>p\<in>set row. - int (length (chunks self)) \<le> fst p \<and> fst p < int (length (chunks self))"
  shows "\<exists>rs. collect_results self row i acc = Some rs \<and> length rs = length acc + length row"
  using assms(2)
proof (induction row arbitrary: i acc)
  case Nil
  then show ?case by simp
next
  case (Cons p row)
  obtain idx sc where p: "p = (idx, sc)" by (cases p)
  from Cons.prems p have r: "- int (length (chunks self)) \<le> idx" "idx < int (length (chunks self))"
    by simp_all
  from py_get_in_range [OF r] obtain c where c: "py_get (chunks self) idx = Some c" by blast
  from py_get_in_range [of "chunk_metadata self" idx] r assms(1)
  obtain m where m: "py_get (chunk_metadata self) idx = Some m" by auto
  from Cons.prems have "\<forall>p\<in>set row. - int (length (chunks self)) \<le> fst p \<and> fst p < int (length (chunks self))"
    by simp
  from Cons.IH [OF this, of "i + 1" "acc @ [\<lparr>chunk = c, metadata = m, score = sc, rank = i + 1\<rparr>]"]
  show ?case using p r c m by simp
qed

lemma flat_search_row_length: "length (flat_search_row fa vs q k) = k"
  by (simp add: flat_search_row_def Let_def)

lemma flat_search_row_labels:
  assumes "p \<in> set (flat_search_row fa vs q k)" "0 < length vs"
  shows "- int (length vs) \<le> fst p \<and> fst p < int (length vs)"
proof -
  let ?ranked = "sort_key (\<lambda>i. - inner fa q (vs ! i)) [0..<length vs]"
  from assms(1) consider
    (found) i where "i \<in> set (take k ?ranked)" "fst p = int i"
    | (pad) "fst p = -1"
    by (auto simp: flat_search_row_def Let_def)
  then show ?thesis
  proof cases
    case found
    then have "i \<in> set ?ranked" by (auto dest: in_set_takeD)
    then have "i < length vs" by simp
    with found show ?thesis by simp
  next
    case pad
    from assms(2) have "1 \<le> int (length vs)" by linarith
    with pad show ?thesis by simp
  qed
qed

text \<open>
  On a pipeline with as many vectors and metadata records as chunks, at least one, a
  query that encodes to one row gets exactly \<open>k\<close> results for every \<open>k > 0\<close>, whatever
  the number of chunks.
\<close>

lemma search_returns_k:
  assumes "index self = Some vs" "encoder self = Some enc" "encode enc [query] = Some [v]"
    and "length vs = length (chunks self)" "length (chunk_metadata self) = length (chunks self)"
    and "0 < length (chunks self)" "0 < k"
  shows "length (fst (search_law fa self query k)) = nat k"
proof -
  let ?row = "flat_search_row fa vs (normalize_L2 fa v) (nat k)"
  have "\<forall>p\<in>set ?row. - int (length (chunks self)) \<le> fst p \<and> fst p < int (length (chunks self))"
    using flat_search_row_labels [of _ fa vs "normalize_L2 fa v" "nat k"] assms(4,6) by auto
  from collect_results_length [OF assms(5) this, of 0 "[]"]
  obtain rs where rs: "collect_results self ?row 0 [] = Some rs" "length rs = nat k"
    by (auto simp: flat_search_row_length)
  with assms(1,2,3,7) show ?thesis
    by (simp add: search_law_def index_search_def)
qed

text \<open>
  C3. A pipeline holding one indexed chunk, asked for \<open>k = 3\<close> results: faiss fills the
  two slots it has no vector for with the label \<open>-1\<close> and the score \<open>-FLT_MAX\<close>, the guard
  \<open>idx < len(self.chunks)\<close> lets \<open>-1\<close> pass, and \<open>self.chunks[-1]\<close> is the last
  chunk. \<open>search_law\<close> returns three results, all of them the one chunk.
\<close>

theorem search_k_exceeds_index:
  "length (chunks one_chunk_pipeline) = 1
   \<and> index one_chunk_pipeline = Some [1]
   \<and> map chunk (fst (search_law toy_faiss one_chunk_pipeline (ascii ''pravo'') 3))
       = [ascii ''pravo'', ascii ''pravo'', ascii ''pravo'']
   \<and> map rank (fst (search_law toy_faiss one_chunk_pipeline (ascii ''pravo'') 3)) = [1, 2, 3]
   \<and> map score (fst (search_law toy_faiss one_chunk_pipeline (ascii ''pravo'') 3)) = [1, - flt_max, - flt_max]"
  by (simp add: search_law_def one_chunk_pipeline_def toy_faiss_def toy_encoder_def
      index_search_def flat_search_row_def py_get_def ascii_def numeral_3_eq_3)


section \<open>The chunker\<close>

lemma loop_text_len: "length loop_text = 20" by (simp add: loop_text_def ascii_def)

lemma find_break_loop_text_0: "find_break loop_text 10 0 10 = 7"
  by (simp add: find_break_def loop_text_def ascii_def sentence_endings_def upto_rec1)
lemma find_break_loop_text_m2: "find_break loop_text 10 (-2) 8 = 7"
  by (simp add: find_break_def loop_text_def ascii_def sentence_endings_def upto_rec1)
lemma slice_loop_text_m2: "py_strip (py_slice loop_text (-2) 7) = []"
  by (simp add: py_slice_def py_bound_def py_strip_def loop_text_def ascii_def)

lemma split_loop_cycle:
  assumes "split_loop t0 cs0 ov0 acc0 start0 = Some y0"
  shows "\<not> (t0 = loop_text \<and> cs0 = 10 \<and> ov0 = 9 \<and> (start0 = 0 \<or> start0 = -2))"
proof (rule split_loop.raw_induct
    [where P = "\<lambda>t cs ov acc start y.
       \<not> (t = loop_text \<and> cs = 10 \<and> ov = 9 \<and> (start = 0 \<or> start = -2))", OF _ assms])
  fix f :: "pystr \<Rightarrow> int \<Rightarrow> int \<Rightarrow> pystr list \<Rightarrow> int \<Rightarrow> pystr list option"
  fix t cs ov acc start y
  assume IH: "\<And>t cs ov acc start y. f t cs ov acc start = Some y \<Longrightarrow>
      \<not> (t = loop_text \<and> cs = 10 \<and> ov = 9 \<and> (start = 0 \<or> start = -2))"
  assume body: "(if start < int (length t) then
        (let end0 = start + cs;
             end = (if end0 < int (length t) then find_break t cs start end0 else end0);
             chunk = py_strip (py_slice t start end);
             chunks' = (if chunk \<noteq> [] then acc @ [chunk] else acc);
             start' = end - ov
         in if start' \<ge> int (length t) then Some chunks'
            else f t cs ov chunks' start')
      else Some acc) = Some y"
  show "\<not> (t = loop_text \<and> cs = 10 \<and> ov = 9 \<and> (start = 0 \<or> start = -2))"
  proof
    assume a: "t = loop_text \<and> cs = 10 \<and> ov = 9 \<and> (start = 0 \<or> start = - 2)"
    then consider "start = 0" | "start = -2" by blast
    then have "\<exists>acc'. f loop_text 10 9 acc' (-2) = Some y"
    proof cases
      case 1
      with a body show ?thesis
        by (auto simp add: loop_text_len find_break_loop_text_0 Let_def)
    next
      case 2
      with a body show ?thesis
        by (auto simp add: loop_text_len find_break_loop_text_m2 slice_loop_text_m2 Let_def)
    qed
    then show False using IH by blast
  qed
qed

text \<open>
  C4. \<open>split_text\<close> on the 20 characters \<open>aaaaaa.aaaaaaaaaaaaa\<close> with
  \<open>chunk_size = 10\<close> and \<open>overlap = 9\<close> (so \<open>0 \<le> overlap < chunk_size\<close>): the first
  chunk ends after the full stop at index 6, the next start is \<open>7 - 9 = -2\<close>, and from
  \<open>start = -2\<close> the loop finds the same full stop, takes the empty slice \<open>text[-2:7]\<close>
  and sets \<open>start = -2\<close> again. The call does not return.
\<close>

theorem split_text_loops_forever: "split_text loop_text 10 9 = None"
proof (cases "split_text loop_text 10 9")
  case None then show ?thesis .
next
  case (Some y)
  then have "split_loop loop_text 10 9 [] 0 = Some y"
    by (simp add: split_text_def loop_text_len)
  from split_loop_cycle [OF this] show ?thesis by simp
qed

subsection \<open>Length of the chunks\<close>

lemma length_py_strip: "length (py_strip s) \<le> length s"
proof -
  have "length (dropWhile py_isspace (rev (dropWhile py_isspace s))) \<le> length (rev (dropWhile py_isspace s))"
    by (rule length_dropWhile_le)
  also have "\<dots> \<le> length s" by (simp add: length_dropWhile_le)
  finally show ?thesis by (simp add: py_strip_def)
qed

lemma py_bound_diff: "a \<le> b \<Longrightarrow> int (py_bound n b) - int (py_bound n a) \<le> b - a"
  by (cases "a < 0"; cases "b < 0"; simp add: py_bound_def; linarith)

lemma length_py_slice: "a \<le> b \<Longrightarrow> int (length (py_slice xs a b)) \<le> b - a"
proof -
  assume ab: "a \<le> b"
  have "int (length (py_slice xs a b))
      \<le> int (py_bound (length xs) b - py_bound (length xs) a)"
    by (simp add: py_slice_def Let_def)
  also have "\<dots> \<le> b - a" using py_bound_diff [OF ab, of "length xs"] ab by linarith
  finally show ?thesis .
qed

lemma find_SomeD: "List.find P xs = Some x \<Longrightarrow> P x \<and> x \<in> set xs"
  by (induction xs) (auto split: if_splits)

lemma find_break_cases:
  "find_break t cs start e = e \<or>
   (\<exists>i. find_break t cs start e = i + 1 \<and> max 0 (e - 200) \<le> i \<and> i < int (length t)
        \<and> i < e + 100 \<and> start + cs div 2 < i \<and> t ! nat i \<in> set sentence_endings)"
proof (cases "List.find (\<lambda>i. t ! nat i \<in> set sentence_endings \<and> i > start + cs div 2)
             [max 0 (e - 200) .. min (int (length t)) (e + 100) - 1]")
  case None
  then show ?thesis by (simp add: find_break_def)
next
  case (Some i)
  from find_SomeD [OF this]
  have "i \<in> set [max 0 (e - 200) .. min (int (length t)) (e + 100) - 1]"
    and "t ! nat i \<in> set sentence_endings \<and> i > start + cs div 2"
    by simp_all
  with Some show ?thesis by (auto simp: find_break_def)
qed

lemma find_break_upper: "find_break t cs start e \<le> e + 100"
  using find_break_cases [of t cs start e] by auto

lemma find_break_lower: "0 \<le> cs \<Longrightarrow> start + cs = e \<Longrightarrow> start \<le> find_break t cs start e"
  using find_break_cases [of t cs start e] by auto

lemma find_upto_first:
  assumes "List.find P [lo..hi] = Some x" "lo \<le> j" "j < x"
  shows "\<not> P j"
proof -
  from assms(1) obtain i where i: "i < length [lo..hi]" "x = [lo..hi] ! i"
    "\<forall>k<i. \<not> P ([lo..hi] ! k)"
    by (auto simp: find_Some_iff)
  from i(1,2) have x: "x = lo + int i" by simp
  define k where "k = nat (j - lo)"
  from assms(2,3) x have k: "k < i" "j = lo + int k" by (simp_all add: k_def)
  with i(1) have "[lo..hi] ! k = j" by simp
  with i(3) k(1) show ?thesis by auto
qed

text \<open>
  The scan stops at the first sentence ending of the window that lies past the midpoint:
  no position of the window before the break, past the midpoint, holds one.
\<close>

lemma find_break_first:
  assumes "max 0 (e - 200) \<le> j" "j < min (int (length t)) (e + 100)"
    and "j < find_break t cs start e - 1" "start + cs div 2 < j"
  shows "t ! nat j \<notin> set sentence_endings"
proof (cases "List.find (\<lambda>i. t ! nat i \<in> set sentence_endings \<and> i > start + cs div 2)
             [max 0 (e - 200) .. min (int (length t)) (e + 100) - 1]")
  case None
  then have "\<forall>i\<in>set [max 0 (e - 200) .. min (int (length t)) (e + 100) - 1].
      \<not> (t ! nat i \<in> set sentence_endings \<and> i > start + cs div 2)"
    by (simp add: find_None_iff)
  with assms(1,2,4) show ?thesis by auto
next
  case (Some x)
  then have "find_break t cs start e = x + 1" by (simp add: find_break_def)
  with assms(3) have "j < x" by simp
  from find_upto_first [OF Some assms(1) this] assms(4) show ?thesis by simp
qed

lemma split_loop_bound:
  assumes "split_loop t0 cs0 ov0 acc0 start0 = Some y0"
  shows "0 \<le> cs0 \<longrightarrow> (\<forall>c\<in>set acc0. int (length c) \<le> cs0 + 100)
          \<longrightarrow> (\<forall>c\<in>set y0. int (length c) \<le> cs0 + 100)"
proof (rule split_loop.raw_induct
    [where P = "\<lambda>t cs ov acc start y. 0 \<le> cs \<longrightarrow> (\<forall>c\<in>set acc. int (length c) \<le> cs + 100)
          \<longrightarrow> (\<forall>c\<in>set y. int (length c) \<le> cs + 100)", OF _ assms])
  fix f :: "pystr \<Rightarrow> int \<Rightarrow> int \<Rightarrow> pystr list \<Rightarrow> int \<Rightarrow> pystr list option"
  fix t cs ov acc start y
  assume IH: "\<And>t cs ov acc start y. f t cs ov acc start = Some y \<Longrightarrow>
      0 \<le> cs \<longrightarrow> (\<forall>c\<in>set acc. int (length c) \<le> cs + 100)
          \<longrightarrow> (\<forall>c\<in>set y. int (length c) \<le> cs + 100)"
  assume body: "(if start < int (length t) then
        (let end0 = start + cs;
             end = (if end0 < int (length t) then find_break t cs start end0 else end0);
             chunk = py_strip (py_slice t start end);
             chunks' = (if chunk \<noteq> [] then acc @ [chunk] else acc);
             start' = end - ov
         in if start' \<ge> int (length t) then Some chunks'
            else f t cs ov chunks' start')
      else Some acc) = Some y"
  show "0 \<le> cs \<longrightarrow> (\<forall>c\<in>set acc. int (length c) \<le> cs + 100)
          \<longrightarrow> (\<forall>c\<in>set y. int (length c) \<le> cs + 100)"
  proof (intro impI)
    assume cs: "0 \<le> cs" and acc: "\<forall>c\<in>set acc. int (length c) \<le> cs + 100"
    define e where "e = (if start + cs < int (length t) then find_break t cs start (start + cs) else start + cs)"
    define chunk where "chunk = py_strip (py_slice t start e)"
    define acc' where "acc' = (if chunk \<noteq> [] then acc @ [chunk] else acc)"
    have e1: "start \<le> e" using cs find_break_lower [of cs start "start + cs" t] by (simp add: e_def)
    have e2: "e \<le> start + cs + 100" using find_break_upper [of t cs start "start + cs"] by (simp add: e_def)
    have "int (length chunk) \<le> int (length (py_slice t start e))"
      using length_py_strip [of "py_slice t start e"] by (simp add: chunk_def)
    also have "\<dots> \<le> e - start" by (rule length_py_slice [OF e1])
    finally have ch: "int (length chunk) \<le> cs + 100" using e2 by simp
    have acc': "\<forall>c\<in>set acc'. int (length c) \<le> cs + 100"
      using acc ch by (simp add: acc'_def)
    from body have body':
      "(if start < int (length t)
        then (if e - ov \<ge> int (length t) then Some acc' else f t cs ov acc' (e - ov))
        else Some acc) = Some y"
      unfolding Let_def e_def chunk_def acc'_def .
    show "\<forall>c\<in>set y. int (length c) \<le> cs + 100"
    proof (cases "start < int (length t)")
      case False
      with body' acc show ?thesis by simp
    next
      case True
      show ?thesis
      proof (cases "e - ov \<ge> int (length t)")
        case True
        with \<open>start < int (length t)\<close> body' have "y = acc'" by simp
        with acc' show ?thesis by simp
      next
        case False
        with \<open>start < int (length t)\<close> body' have "f t cs ov acc' (e - ov) = Some y" by simp
        from IH [OF this] cs acc' show ?thesis by blast
      qed
    qed
  qed
qed

text \<open>
  What the code does keep: for \<open>chunk_size \<ge> 0\<close> every chunk \<open>split_text\<close> returns has
  at most \<open>chunk_size + 100\<close> characters, since the scan for a sentence ending runs up to
  100 characters past \<open>start + chunk_size\<close>.
\<close>

lemma chunk_length_le_100:
  "split_text t cs ov = Some cks \<Longrightarrow> 0 \<le> cs \<Longrightarrow> c \<in> set cks \<Longrightarrow> int (length c) \<le> cs + 100"
proof -
  assume a: "split_text t cs ov = Some cks" and cs: "0 \<le> cs" and c: "c \<in> set cks"
  show ?thesis
  proof (cases "int (length t) \<le> cs")
    case True
    with a c show ?thesis by (auto simp: split_text_def)
  next
    case False
    with a have "split_loop t cs ov [] 0 = Some cks" by (simp add: split_text_def)
    from split_loop_bound [OF this] cs c show ?thesis by simp
  qed
qed

lemma bound_text_len: "length bound_text = 17" by (simp add: bound_text_def ascii_def)

lemma find_break_bound_text: "find_break bound_text 10 0 10 = 11"
  by (simp add: find_break_def bound_text_def ascii_def sentence_endings_def upto_rec1)

lemma slices_bound_text:
  "py_strip (py_slice bound_text 0 11) = ascii ''aaaaa.aaaa.''"
  "py_strip (py_slice bound_text 9 19) = ascii ''a.aaaaaa''"
  by (simp_all add: py_slice_def py_bound_def py_strip_def py_isspace_def bound_text_def
      ascii_def)

lemma split_bound_text:
  "split_text bound_text 10 2 = Some [ascii ''aaaaa.aaaa.'', ascii ''a.aaaaaa'']"
  by (simp add: split_text_def split_loop.simps bound_text_len find_break_bound_text
      slices_bound_text Let_def ascii_def)

lemma longest_run_bound_text: "longest_run bound_text = 6"
  by (simp add: longest_run_def bound_text_def ascii_def sentence_endings_def)

text \<open>
  C5. \<open>split_text\<close> on \<open>aaaaa.aaaa.aaaaaa\<close> with \<open>chunk_size = 10\<close> and \<open>overlap = 2\<close>:
  the text has no delimiter-free run longer than 6, and the first chunk returned has 11
  characters, one more than \<open>chunk_size\<close>, which the docstring calls the maximum size of
  each chunk. The full stop at index 5 is not past the midpoint; the scan, announced as
  looking "within the last 200 characters", goes on past \<open>start + chunk_size\<close> and
  takes the full stop at index 10.
\<close>

theorem chunk_exceeds_chunk_size:
  "split_text bound_text 10 2 = Some [ascii ''aaaaa.aaaa.'', ascii ''a.aaaaaa'']
   \<and> \<not> int (length (ascii ''aaaaa.aaaa.'')) \<le> 10
   \<and> int (longest_run bound_text) \<le> 10"
proof -
  have "\<not> int (length (ascii ''aaaaa.aaaa.'')) \<le> 10" by (simp add: ascii_def)
  moreover have "int (longest_run bound_text) \<le> 10" by (simp add: longest_run_bound_text)
  ultimately show ?thesis using split_bound_text by simp
qed

subsection \<open>Coverage of the text\<close>

lemma py_slice_nonneg:
  "0 \<le> a \<Longrightarrow> a \<le> b \<Longrightarrow> py_slice t a b = take (nat b - nat a) (drop (nat a) t)"
  by (auto simp: py_slice_def py_bound_def Let_def min_def)

lemma piece_nat:
  fixes s p e :: nat
  assumes "s \<le> p" "p \<le> e"
  shows "drop (min p (length t) - s) (take (e - s) (drop s t)) @ drop e t = drop p t"
proof (cases "p < length t")
  case True
  then have "drop (min p (length t) - s) (take (e - s) (drop s t)) = take (e - p) (drop p t)"
    using assms by (simp add: drop_take min_def)
  moreover have "drop e t = drop (e - p) (drop p t)" using assms by simp
  ultimately show ?thesis by (metis append_take_drop_id)
next
  case False
  then have "drop e t = []" "drop p t = []" using assms by simp_all
  then show ?thesis by simp
qed

lemma piece_int:
  assumes "0 \<le> s" "s \<le> p" "p \<le> e"
  shows "drop (nat (min p (int (length t)) - s)) (py_slice t s e) @ drop (nat e) t = drop (nat p) t"
proof -
  have 1: "py_slice t s e = take (nat e - nat s) (drop (nat s) t)"
    using assms by (intro py_slice_nonneg) auto
  have 2: "nat (min p (int (length t)) - s) = min (nat p) (length t) - nat s"
    using assms by (auto simp: min_def)
  show ?thesis unfolding 1 2
    using piece_nat [of "nat s" "nat p" "nat e" t] assms by simp
qed

lemma trimmed_Cons:
  "trimmed t ((s, e) # spans) =
     (if py_strip (py_slice t s e) \<noteq> [] then [py_strip (py_slice t s e)] else []) @ trimmed t spans"
  by (simp add: trimmed_def)

lemma loop_coverage:
  assumes ov: "0 \<le> ov" "ov < cs" "ov \<le> cs div 2 + 1"
  shows "0 \<le> start \<Longrightarrow> start \<le> prev \<Longrightarrow> prev \<le> start + ov \<Longrightarrow>
     \<exists>spans. split_loop t cs ov acc start = Some (acc @ trimmed t spans)
        \<and> linked ov start spans
        \<and> concat (drop_overlaps t prev spans) = drop (nat prev) t"
proof (induction "nat (int (length t) - start)" arbitrary: start prev acc rule: less_induct)
  case less
  show ?case
  proof (cases "start < int (length t)")
    case False
    then have "split_loop t cs ov acc start = Some acc"
      by (subst split_loop.simps) simp
    moreover have "drop (nat prev) t = []" using False less.prems by simp
    ultimately have "split_loop t cs ov acc start = Some (acc @ trimmed t [])
        \<and> linked ov start []
        \<and> concat (drop_overlaps t prev []) = drop (nat prev) t"
      by (simp add: trimmed_def)
    then show ?thesis by blast
  next
    case True
    define e where "e = (if start + cs < int (length t) then find_break t cs start (start + cs) else start + cs)"
    define chunk where "chunk = py_strip (py_slice t start e)"
    define acc' where "acc' = (if chunk \<noteq> [] then acc @ [chunk] else acc)"
    have step: "split_loop t cs ov acc start =
        (if e - ov \<ge> int (length t) then Some acc' else split_loop t cs ov acc' (e - ov))"
      using True unfolding e_def chunk_def acc'_def
      by (subst split_loop.simps) (simp add: Let_def)
    have e_lo: "start + ov + 1 \<le> e"
      using find_break_cases [of t cs start "start + cs"] ov by (auto simp: e_def)
    have acc': "acc' = acc @ trimmed t [(start, e)]"
      by (simp add: acc'_def chunk_def trimmed_def)
    have pe: "prev \<le> e" using e_lo less.prems by simp
    show ?thesis
    proof (cases "e - ov \<ge> int (length t)")
      case True
      have "int (length t) \<le> e" using True ov by simp
      then have "drop (nat e) t = []" by simp
      with piece_int [of start prev e t] less.prems pe
      have "concat (drop_overlaps t prev [(start, e)]) = drop (nat prev) t" by simp
      moreover have "split_loop t cs ov acc start = Some (acc @ trimmed t [(start, e)])"
        using step True acc' by simp
      moreover have "linked ov start [(start, e)]" by simp
      ultimately show ?thesis by blast
    next
      case False
      have m: "nat (int (length t) - (e - ov)) < nat (int (length t) - start)"
        using e_lo \<open>start < int (length t)\<close> by simp
      have "0 \<le> e - ov" "e - ov \<le> e" "e \<le> e - ov + ov" using e_lo less.prems ov by simp_all
      from less.hyps [OF m this, of acc']
      obtain spans where sp: "split_loop t cs ov acc' (e - ov) = Some (acc' @ trimmed t spans)"
        "linked ov (e - ov) spans" "concat (drop_overlaps t e spans) = drop (nat e) t"
        by blast
      have "split_loop t cs ov acc start = Some (acc @ trimmed t ((start, e) # spans))"
        using step False sp(1) acc' by (simp add: trimmed_def)
      moreover have "linked ov start ((start, e) # spans)" using sp(2) by simp
      moreover have "concat (drop_overlaps t prev ((start, e) # spans)) = drop (nat prev) t"
        using piece_int [of start prev e t] less.prems pe sp(3) by simp
      ultimately show ?thesis by blast
    qed
  qed
qed

text \<open>
  C6, as the code has it. For \<open>0 \<le> overlap < chunk_size\<close> with
  \<open>overlap \<le> chunk_size // 2 + 1\<close>, \<open>split_text\<close> returns. A text of at most
  \<open>chunk_size\<close> characters comes back whole. A longer one is cut into slices
  \<open>text[start:end]\<close>, the first starting at 0 and each next one \<open>overlap\<close> characters
  before the end of the one before; the chunks returned are these slices stripped of
  surrounding whitespace, the empty ones dropped; and the untrimmed slices, each without
  its leading part that overlaps the slice before it, concatenate to the text.
\<close>

theorem chunk_coverage:
  assumes "0 \<le> ov" "ov < cs" "ov \<le> cs div 2 + 1"
  shows "\<exists>spans. split_text t cs ov = Some (if int (length t) \<le> cs then [t] else trimmed t spans)
           \<and> linked ov 0 spans
           \<and> concat (drop_overlaps t 0 spans) = t"
proof (cases "int (length t) \<le> cs")
  case True
  then have "py_slice t 0 cs = t" using assms by (simp add: py_slice_nonneg)
  with True have "split_text t cs ov = Some (if int (length t) \<le> cs then [t] else trimmed t [(0, cs)])
           \<and> linked ov 0 [(0, cs)]
           \<and> concat (drop_overlaps t 0 [(0, cs)]) = t"
    by (simp add: split_text_def)
  then show ?thesis by blast
next
  case False
  from loop_coverage [OF assms, of 0 0 t "[]"] assms(1) False show ?thesis
    by (simp add: split_text_def)
qed

theorem chunk_coverage_witness:
  "(0::int) \<le> 0 \<and> (0::int) < 10 \<and> (0::int) \<le> 10 div 2 + 1
   \<and> (\<exists>spans. split_text cover_text 10 0
          = Some (if int (length cover_text) \<le> 10 then [cover_text] else trimmed cover_text spans)
        \<and> linked 0 0 spans
        \<and> concat (drop_overlaps cover_text 0 spans) = cover_text)"
  using chunk_coverage [of 0 10 cover_text] by simp

lemma cover_text_len: "length cover_text = 19" by (simp add: cover_text_def ascii_def)

lemma find_break_cover_text: "find_break cover_text 10 0 10 = 10"
  by (simp add: find_break_def cover_text_def ascii_def sentence_endings_def upto_rec1)

lemma slices_cover_text:
  "py_strip (py_slice cover_text 0 10) = ascii ''aaaaaaaaa''"
  "py_strip (py_slice cover_text 10 20) = ascii ''bbbbbbbbb''"
  by (simp_all add: py_slice_def py_bound_def py_strip_def py_isspace_def cover_text_def
      ascii_def)

lemma split_cover_text:
  "split_text cover_text 10 0 = Some [ascii ''aaaaaaaaa'', ascii ''bbbbbbbbb'']"
  by (simp add: split_text_def split_loop.simps cover_text_len find_break_cover_text
      slices_cover_text Let_def ascii_def)

text \<open>
  C6 as stated fails: \<open>split_text\<close> strips every chunk. With \<open>chunk_size = 10\<close> and
  \<open>overlap = 0\<close> the space at index 9 of \<open>aaaaaaaaa bbbbbbbbb\<close> ends the first slice and
  is stripped; the chunks, which share no span, concatenate to 18 of the 19 characters.
\<close>

theorem chunk_coverage_counterexample:
  "split_text cover_text 10 0 = Some [ascii ''aaaaaaaaa'', ascii ''bbbbbbbbb'']
   \<and> join_chunks 0 [ascii ''aaaaaaaaa'', ascii ''bbbbbbbbb''] \<noteq> cover_text"
  using split_cover_text by (simp add: join_chunks_def cover_text_def ascii_def)



section \<open>The cleaner\<close>

text \<open>Every character \<open>clean_text\<close> returns is in the allow-list.\<close>

lemma clean_text_allowed: "c \<in> set (clean_text uni t) \<Longrightarrow> allowed uni c"
  by (simp add: clean_text_def)

text \<open>
  C9. \<open>clean_text\<close> collapses whitespace first and removes characters afterwards. In
  \<open>a @ b\<close> the two spaces around the removed \<open>@\<close> stay: the result is \<open>a\<close>, two spaces,
  \<open>b\<close>, a run of two whitespace characters.
\<close>

theorem clean_text_space_run:
  "clean_text uni (ascii ''a @ b'') = ascii ''a  b''
   \<and> has_space_run (clean_text uni (ascii ''a @ b''))"
  by (simp add: clean_text_def ascii_def py_isspace_def allowed_def re_word_def)


section \<open>The loader\<close>

lemma load_file_iff:
  "(n, c) \<in> set (load_file e) \<longleftrightarrow>
     n = fst e \<and> try_encodings (snd e) encodings = Some (Some c) \<and> c \<noteq> []"
  by (auto simp: load_file_def split: option.splits)

text \<open>
  On a directory whose path has no pattern character, \<open>load_law_texts\<close> returns the pair
  (\<open>name\<close>, \<open>content\<close>) exactly for the entries whose name matches one of the three
  patterns and that the first encoding not raising UnicodeDecodeError reads, without
  another error, to a non-empty \<open>content\<close>.
\<close>

lemma load_law_texts_plain_path:
  "\<not> has_magic path \<Longrightarrow>
   (name, content) \<in> set (fst (load_law_texts matched path (Some entries))) \<longleftrightarrow>
     (\<exists>f. (name, f) \<in> set entries \<and> supported name
          \<and> try_encodings f encodings = Some (Some content) \<and> content \<noteq> [])"
  by (fastforce simp: load_law_texts_def load_file_iff supported_def list_ex_iff)

text \<open>
  C8. The directory \<open>/srv/data/laws_raw\<close> holds one file, \<open>empty.txt\<close>, of no bytes: the
  first encoding, \<open>utf-8\<close>, decodes it, to the empty string. \<open>if content:\<close> is false for
  the empty string, so the file goes to the branch that logs "Could not decode file" and
  \<open>load_law_texts\<close> returns the empty list, although an encoding decoded the file.
\<close>

theorem loader_skips_empty_file:
  "empty_file Utf8 = Content []
   \<and> fst (load_law_texts matched laws_dir (Some [(ascii ''empty.txt'', empty_file)])) = []"
  by (simp add: extensions_def glob_match_def ascii_def empty_file_def encodings_def
      load_law_texts_def load_file_def has_magic_def laws_dir_def)


section \<open>The index, the chunks and the metadata\<close>

subsection \<open>Alignment after a build or a load\<close>

lemma document_metadata:
  "describes_document filename dc
     (map (\<lambda>(i, chunk). \<lparr>source = filename, chunk_id = i, total_chunks = length dc,
                          char_count = length chunk\<rparr>)
          (zip [0..<length dc] dc))"
  by (simp add: describes_document_def list_all_iff)

lemma describes_document_char_count:
  "describes_document filename dc ms \<Longrightarrow> list_all2 (\<lambda>c m. char_count m = length c) dc ms"
  by (simp add: describes_document_def list_all_iff list_all2_conv_all_nth)

lemma process_documents_parts:
  "process_documents uni docs cs ov cks0 ms0 = Some (cks, ms) \<Longrightarrow>
   \<exists>parts. chunked_corpus uni cs ov docs parts
      \<and> cks = cks0 @ concat (map fst parts) \<and> ms = ms0 @ concat (map snd parts)"
proof (induction docs arbitrary: cks0 ms0)
  case Nil
  then have "chunked_corpus uni cs ov [] []
      \<and> cks = cks0 @ concat (map fst []) \<and> ms = ms0 @ concat (map snd [])"
    by (simp add: chunked_corpus_def)
  then show ?case by blast
next
  case (Cons d docs)
  obtain filename content where d: "d = (filename, content)" by (cases d)
  from Cons.prems d obtain dc where
    dc: "split_text (clean_text uni content) cs ov = Some dc"
    and rest: "process_documents uni docs cs ov (cks0 @ dc)
        (ms0 @ map (\<lambda>(i, chunk). \<lparr>source = filename, chunk_id = i, total_chunks = length dc,
                          char_count = length chunk\<rparr>) (zip [0..<length dc] dc)) = Some (cks, ms)"
    by (auto split: option.splits)
  define dm where "dm = map (\<lambda>(i, chunk). \<lparr>source = filename, chunk_id = i,
      total_chunks = length dc, char_count = length chunk\<rparr>) (zip [0..<length dc] dc)"
  from Cons.IH [OF rest] obtain parts where
    p: "chunked_corpus uni cs ov docs parts"
       "cks = (cks0 @ dc) @ concat (map fst parts)"
       "ms = (ms0 @ dm) @ concat (map snd parts)"
    unfolding dm_def by blast
  have "describes_document filename dc dm" unfolding dm_def by (rule document_metadata)
  with p(1) dc d have "chunked_corpus uni cs ov (d # docs) ((dc, dm) # parts)"
    by (simp add: chunked_corpus_def)
  moreover have "cks = cks0 @ concat (map fst ((dc, dm) # parts))"
    "ms = ms0 @ concat (map snd ((dc, dm) # parts))"
    using p(2,3) by simp_all
  ultimately show ?case by blast
qed

lemma chunked_corpus_char_count:
  "chunked_corpus uni cs ov docs parts \<Longrightarrow>
   list_all2 (\<lambda>c m. char_count m = length c) (concat (map fst parts)) (concat (map snd parts))"
proof (induction parts arbitrary: docs)
  case Nil
  then show ?case by simp
next
  case (Cons p parts)
  then obtain d docs' where docs: "docs = d # docs'"
    by (auto simp: chunked_corpus_def list_all2_Cons2)
  with Cons.prems have h: "describes_document (fst d) (fst p) (snd p)"
    and t: "chunked_corpus uni cs ov docs' parts"
    by (simp_all add: chunked_corpus_def)
  from describes_document_char_count [OF h] Cons.IH [OF t] show ?case
    by (simp add: list_all2_appendI)
qed

lemma load_law_texts_again:
  "load_law_texts matched path (snd (load_law_texts matched path (Some entries)))
     = load_law_texts matched path (Some entries)"
  by (simp add: load_law_texts_def)

lemma persist_ok:
  "persist env vs self disk = (True, self', disk') \<Longrightarrow>
     self' = self \<and> faiss_index_file disk' = Stored vs
     \<and> laws_chunks_file disk'
         = Stored \<lparr>p_chunks = Some (chunks self), p_metadata = Some (chunk_metadata self)\<rparr>"
  by (auto simp: persist_def split: if_splits write_outcome.splits)

lemma embed_and_store_ok:
  assumes "embed_and_store env self disk = (True, self', disk')"
  shows "\<exists>enc rows. encoder self = Some enc \<and> encode enc (chunks self) = Some rows
           \<and> index_build env rows = BuildOk
           \<and> self' = self\<lparr>index := Some (map (normalize_L2 (faiss_lib env)) rows)\<rparr>
           \<and> persisted disk' self'"
proof -
  from assms obtain enc where enc: "encoder self = Some enc"
    by (auto simp: embed_and_store_def split: option.splits)
  from assms enc obtain rows where rows: "encode enc (chunks self) = Some rows"
    by (auto simp: embed_and_store_def split: option.splits)
  from assms enc rows have b: "index_build env rows = BuildOk"
    by (auto simp: embed_and_store_def split: build_outcome.splits)
  define vs where "vs = map (normalize_L2 (faiss_lib env)) rows"
  from assms enc rows b have p: "persist env vs (self\<lparr>index := Some vs\<rparr>) disk = (True, self', disk')"
    by (simp add: embed_and_store_def vs_def)
  from persist_ok [OF p] have "self' = self\<lparr>index := Some vs\<rparr>" "persisted disk' self'"
    by (simp_all add: persisted_def)
  with enc rows b show ?thesis unfolding vs_def by blast
qed



lemma load_existing_index_ok:
  "load_existing_index env self disk = (True, self') \<Longrightarrow> persisted disk self'"
  by (auto simp: load_existing_index_def persisted_def
      split: prod.splits bool.splits if_splits stored.splits option.splits)

lemma embed_and_store_frame:
  assumes "embed_and_store env self disk = (ok, self', disk')"
  shows "encoder self' = encoder self" "chunks self' = chunks self"
    "chunk_metadata self' = chunk_metadata self" "laws_raw disk' = laws_raw disk"
    "ok \<Longrightarrow> \<not> encode_fails self \<and> \<not> index_fails env self \<and> \<not> persist_fails env"
    "encode_fails self \<or> index_fails env self \<Longrightarrow>
       \<not> ok \<and> faiss_index_file disk' = faiss_index_file disk
       \<and> laws_chunks_file disk' = laws_chunks_file disk"
    "encode_fails self \<Longrightarrow> index self' = index self"
  using assms
  by (auto simp: embed_and_store_def persist_def encode_fails_def index_fails_def persist_fails_def
      split: option.splits build_outcome.splits write_outcome.splits if_splits)

text \<open>
  After every \<open>rebuild\<close> that returns, failed or not, the chunk and metadata lists of the
  pipeline are those of the documents \<open>load_law_texts\<close> gives for the directory: the
  chunks document after document, each with the records that describe it.
\<close>

lemma rebuild_lists:
  assumes "rebuild env self disk data_dir cs ov = Some (ok, self', disk')"
  shows "\<exists>parts. chunked_corpus (unicode_alnum env) cs ov
            (fst (load_law_texts (glob_matched env) data_dir (laws_raw disk'))) parts
          \<and> chunks self' = concat (map fst parts)
          \<and> chunk_metadata self' = concat (map snd parts)"
proof -
  define first_load where
    "first_load = load_law_texts (glob_matched env) data_dir (laws_raw disk)"
  define second_load where
    "second_load = (if fst first_load = []
        then load_law_texts (glob_matched env) data_dir
               (write_sample (sample_text env) (snd first_load))
        else first_load)"
  from assms obtain cks ms where
    pd: "process_documents (unicode_alnum env) (fst second_load) cs ov [] [] = Some (cks, ms)"
    and es: "embed_and_store env (self\<lparr>chunks := cks, chunk_metadata := ms\<rparr>)
               (disk\<lparr>laws_raw := snd second_load\<rparr>) = (ok, self', disk')"
    unfolding rebuild_def Let_def first_load_def second_load_def
    by (auto split: option.splits)
  from embed_and_store_frame(2,3,4) [OF es]
  have fr: "chunks self' = cks" "chunk_metadata self' = ms" "laws_raw disk' = snd second_load"
    by simp_all
  have "load_law_texts (glob_matched env) data_dir (snd second_load) = second_load"
  proof (cases "fst first_load = []")
    case True
    then show ?thesis
      by (simp add: second_load_def write_sample_def load_law_texts_again)
  next
    case False
    then obtain entries where "laws_raw disk = Some entries"
      by (cases "laws_raw disk") (auto simp: first_load_def load_law_texts_def)
    with False show ?thesis
      by (simp add: second_load_def first_load_def load_law_texts_again)
  qed
  with fr(3) have again:
    "fst (load_law_texts (glob_matched env) data_dir (laws_raw disk')) = fst second_load"
    by simp
  from process_documents_parts [OF pd] obtain parts where
    "chunked_corpus (unicode_alnum env) cs ov (fst second_load) parts"
      "cks = concat (map fst parts)" "ms = concat (map snd parts)"
    by auto
  with again fr(1,2) show ?thesis by auto
qed

lemma rebuild_ok:
  assumes "rebuild env self disk data_dir cs ov = Some (True, self', disk')"
  shows "persisted disk' self'"
    and "rows_match self' \<Longrightarrow> aligned (faiss_lib env) self'"
proof -
  from assms obtain cks ms d where
    es: "embed_and_store env (self\<lparr>chunks := cks, chunk_metadata := ms\<rparr>)
               (disk\<lparr>laws_raw := d\<rparr>) = (True, self', disk')"
    unfolding rebuild_def Let_def by (auto split: option.splits)
  from embed_and_store_ok [OF es] obtain enc rows where
    e: "encoder self = Some enc" "encode enc cks = Some rows"
       "self' = self\<lparr>chunks := cks, chunk_metadata := ms,
                     index := Some (map (normalize_L2 (faiss_lib env)) rows)\<rparr>"
       "persisted disk' self'"
    by auto
  show "persisted disk' self'" by (rule e(4))
  from rebuild_lists [OF assms] obtain parts where
    parts: "chunked_corpus (unicode_alnum env) cs ov
            (fst (load_law_texts (glob_matched env) data_dir (laws_raw disk'))) parts"
      "chunks self' = concat (map fst parts)" "chunk_metadata self' = concat (map snd parts)"
    by blast
  from chunked_corpus_char_count [OF parts(1)] parts(2,3) e(3)
  have a: "list_all2 (\<lambda>c m. char_count m = length c) cks ms" by simp
  then have l: "length ms = length cks" by (simp add: list_all2_lengthD)
  assume "rows_match self'"
  with e have "length rows = length cks" by (simp add: rows_match_def)
  with e a l show "aligned (faiss_lib env) self'" by (simp add: aligned_def)
qed

text \<open>
  C1, as the code has it. After a successful \<open>build_index\<close>, and after a successful
  \<open>_load_existing_index\<close>, the pipeline holds exactly the vectors of the persisted index
  file and the chunk and metadata lists of the persisted pickle. When \<open>build_index\<close>
  rebuilt (it did not take the load path), the chunks are the chunks of the loaded
  documents, document after document, and the \<open>i\<close>-th metadata record describes the
  \<open>i\<close>-th chunk: it names the document the chunk comes from, the ordinal of the chunk in
  that document, the number of chunks of that document and the length of the chunk. If
  moreover the encoder returned one row per chunk, there are equally many vectors, chunks
  and metadata records and the \<open>i\<close>-th vector is the normalized \<open>i\<close>-th row of the encoding
  of the chunks. After a load the alignment is that of the two files; the code does not
  check it.
\<close>

theorem positional_alignment:
  "(build_index env self disk data_dir chunk_size overlap force_rebuild
      = Some (True, self', disk') \<longrightarrow>
      persisted disk' self'
      \<and> (rebuilds disk force_rebuild \<longrightarrow>
           (\<exists>parts. chunked_corpus (unicode_alnum env) chunk_size overlap
                      (fst (load_law_texts (glob_matched env) data_dir (laws_raw disk'))) parts
                   \<and> chunks self' = concat (map fst parts)
                   \<and> chunk_metadata self' = concat (map snd parts))
           \<and> (rows_match self' \<longrightarrow> aligned (faiss_lib env) self')))
   \<and> (load_existing_index env self disk = (True, self'') \<longrightarrow> persisted disk self'')"
proof (intro conjI impI)
  assume "load_existing_index env self disk = (True, self'')"
  then show "persisted disk self''" by (rule load_existing_index_ok)
next
  assume b: "build_index env self disk data_dir chunk_size overlap force_rebuild
      = Some (True, self', disk')"
  show "persisted disk' self'"
  proof (cases "\<not> force_rebuild \<and> faiss_index_file disk \<noteq> Absent \<and> laws_chunks_file disk \<noteq> Absent")
    case True
    with b have "load_existing_index env self disk = (True, self')" "disk' = disk"
      by (auto simp: build_index_def split: if_splits prod.splits)
    then show ?thesis by (simp add: load_existing_index_ok)
  next
    case False
    with b obtain self1 where
      "rebuild env self1 disk data_dir chunk_size overlap = Some (True, self', disk')"
      by (auto simp: build_index_def split: if_splits prod.splits bool.splits)
    then show ?thesis by (rule rebuild_ok(1))
  qed
next
  assume b: "build_index env self disk data_dir chunk_size overlap force_rebuild
      = Some (True, self', disk')"
    and r: "rebuilds disk force_rebuild"
  from b r obtain self1 where
    "rebuild env self1 disk data_dir chunk_size overlap = Some (True, self', disk')"
    by (auto simp: build_index_def rebuilds_def split: if_splits prod.splits bool.splits)
  from rebuild_lists [OF this]
  show "\<exists>parts. chunked_corpus (unicode_alnum env) chunk_size overlap
                      (fst (load_law_texts (glob_matched env) data_dir (laws_raw disk'))) parts
                   \<and> chunks self' = concat (map fst parts)
                   \<and> chunk_metadata self' = concat (map snd parts)" .
next
  assume b: "build_index env self disk data_dir chunk_size overlap force_rebuild
      = Some (True, self', disk')"
    and r: "rebuilds disk force_rebuild" and m: "rows_match self'"
  from b r obtain self1 where
    "rebuild env self1 disk data_dir chunk_size overlap = Some (True, self', disk')"
    by (auto simp: build_index_def rebuilds_def split: if_splits prod.splits bool.splits)
  from rebuild_ok(2) [OF this m] show "aligned (faiss_lib env) self'" .
qed

lemma toy_build:
  "build_index toy_env init_pipeline toy_disk laws_dir 1000 200 False
     = Some (True, one_chunk_pipeline, built_disk)"
  by (simp add: build_index_def toy_env_def init_pipeline_def toy_disk_def load_encoder_def
      rebuild_def load_law_texts_def has_magic_def laws_dir_def extensions_def glob_match_def
      ascii_def load_file_def
      encodings_def pravo_file_def clean_text_def allowed_def re_word_def py_isspace_def
      split_text_def embed_and_store_def toy_encoder_def toy_faiss_def persist_def
      one_chunk_pipeline_def built_disk_def)

theorem positional_alignment_witness:
  "build_index toy_env init_pipeline toy_disk laws_dir 1000 200 False
     = Some (True, one_chunk_pipeline, built_disk)
   \<and> rebuilds toy_disk False \<and> rows_match one_chunk_pipeline
   \<and> persisted built_disk one_chunk_pipeline
   \<and> (\<exists>parts. chunked_corpus (unicode_alnum toy_env) 1000 200
                (fst (load_law_texts (glob_matched toy_env) laws_dir (laws_raw built_disk))) parts
             \<and> chunks one_chunk_pipeline = concat (map fst parts)
             \<and> chunk_metadata one_chunk_pipeline = concat (map snd parts))
   \<and> aligned (faiss_lib toy_env) one_chunk_pipeline
   \<and> load_existing_index toy_env init_pipeline built_disk = (True, one_chunk_pipeline)"
proof -
  have r: "rebuilds toy_disk False" by (simp add: rebuilds_def toy_disk_def)
  have m: "rows_match one_chunk_pipeline"
    by (simp add: rows_match_def one_chunk_pipeline_def toy_encoder_def)
  have l: "load_existing_index toy_env init_pipeline built_disk = (True, one_chunk_pipeline)"
    by (simp add: load_existing_index_def load_encoder_def toy_env_def init_pipeline_def
        built_disk_def toy_disk_def one_chunk_pipeline_def)
  from positional_alignment [of toy_env init_pipeline toy_disk laws_dir 1000 200 False
      one_chunk_pipeline built_disk one_chunk_pipeline] toy_build r m l
  show ?thesis by simp
qed

text \<open>
  C1 as stated fails: with an index file of two vectors beside a pickle of one chunk,
  \<open>_load_existing_index\<close> returns \<open>True\<close> and leaves two vectors and one chunk in the
  pipeline.
\<close>

theorem load_misaligned:
  "fst (load_existing_index toy_env init_pipeline skewed_disk) = True
   \<and> index (snd (load_existing_index toy_env init_pipeline skewed_disk)) = Some [1, 1]
   \<and> chunks (snd (load_existing_index toy_env init_pipeline skewed_disk)) = [ascii ''pravo'']
   \<and> length [1, 1 :: int] \<noteq> length [ascii ''pravo'']"
  by (intro conjI)
    (simp_all add: load_existing_index_def load_encoder_def toy_env_def init_pipeline_def
      skewed_disk_def two_docs_disk_def built_disk_def toy_disk_def one_chunk_pipeline_def)

text \<open>
  Such files are what \<open>build_index\<close> itself leaves when the write of the pickle fails
  after the index file was written: the rebuild over two documents returns \<open>False\<close>, the
  index file holds two vectors and the pickle still holds the one old chunk.
\<close>

lemma failed_dump_skews_files:
  "map_option (\<lambda>r. (fst r, snd (snd r)))
     (build_index dump_fails_env one_chunk_pipeline two_docs_disk laws_dir 1000 200 True)
   = Some (False, skewed_disk)"
  by (simp add: build_index_def dump_fails_env_def toy_env_def two_docs_disk_def built_disk_def
      toy_disk_def skewed_disk_def load_encoder_def
      rebuild_def load_law_texts_def has_magic_def laws_dir_def extensions_def glob_match_def
      ascii_def load_file_def
      encodings_def pravo_file_def kodeks_file_def clean_text_def allowed_def re_word_def
      py_isspace_def split_text_def embed_and_store_def toy_encoder_def toy_faiss_def
      persist_def one_chunk_pipeline_def)

subsection \<open>A build that fails\<close>






end
